theory Spec2Isabelle
  imports Complex_Main "HOL-Library.Char_ord" "HOL-Library.List_Lexorder" "HOL-Library.Log_Nat"
begin

section \<open>Data model\<close>

text \<open>
  The application (\<^verbatim>\<open>src/app_7.py\<close>) works on pandas data frames.  A cell is a
  number, a text or the missing value (NaN).  Python compares an integer and a float by
  value (\<^verbatim>\<open>1 == 1.0\<close>), so both are one constructor, which carries the value: every
  integer and every finite float is a rational number.
\<close>

datatype cell = Num rat | Text string | Missing

text \<open>
  A data frame has its column names and its rows; every row carries its index label
  (the labels are \<^verbatim>\<open>0 .. n-1\<close> after loading and after \<^verbatim>\<open>reset_index\<close>) and maps a
  column name to a cell.  Only the names listed in \<open>columns\<close> are meaningful.
\<close>

type_synonym row = "string \<Rightarrow> cell"

record dataframe =
  columns :: "string list"
  rows :: "(nat \<times> row) list"

text \<open>The exceptions that the code lets escape, by cause.\<close>

datatype error =
    KeyError string               \<comment> \<open>\<^verbatim>\<open>df[col]\<close> on a column that does not exist\<close>
  | UndefinedVariable string      \<comment> \<open>\<^verbatim>\<open>df.query\<close> naming a column that does not exist\<close>
  | NotNumeric                    \<comment> \<open>a text where a number is needed\<close>
  | MixedKeys                     \<comment> \<open>\<^verbatim>\<open>sort_index\<close> ordering a text against a number\<close>
  | ValueError                    \<comment> \<open>\<^verbatim>\<open>int(nan)\<close>, \<^verbatim>\<open>int\<close> of a text that is no integer\<close>
  | MissingColumns "string list"  \<comment> \<open>\<^verbatim>\<open>st.error\<close> and \<^verbatim>\<open>st.stop\<close> of \<^verbatim>\<open>main\<close>\<close>

section \<open>The categorical filter\<close>

text \<open>\<^verbatim>\<open>DataFrame.reset_index(drop=True)\<close>: the rows are relabelled \<^verbatim>\<open>0 .. n-1\<close>.\<close>

definition reset_index :: "dataframe \<Rightarrow> dataframe" where
  "reset_index df = df\<lparr>rows := zip [0 ..< length (rows df)] (map snd (rows df))\<rparr>"

text \<open>
  \<^verbatim>\<open>Series.isin(values)\<close>: membership by value; pandas lets a missing cell match a
  missing entry of \<open>values\<close>.
\<close>

definition isin :: "cell \<Rightarrow> cell list \<Rightarrow> bool" where
  "isin v selecionados = (v \<in> set selecionados)"

text \<open>
  \<^verbatim>\<open>
  def multiselect_filter(relatorio, col, selecionados):
      if "all" in selecionados:
          return relatorio
      return relatorio[relatorio[col].isin(selecionados)].reset_index(drop=True)
  \<close>
\<close>

definition multiselect_filter :: "dataframe \<Rightarrow> string \<Rightarrow> cell list \<Rightarrow> error + dataframe" where
  "multiselect_filter relatorio col selecionados =
     (if Text ''all'' \<in> set selecionados then Inr relatorio
      else if col \<notin> set (columns relatorio) then Inl (KeyError col)
      else Inr (reset_index
        (relatorio\<lparr>rows := filter (\<lambda>(i, r). isin (r col) selecionados) (rows relatorio)\<rparr>)))"

section \<open>The numeric range filter\<close>

fun is_text :: "cell \<Rightarrow> bool" where
  "is_text (Text s) = True"
| "is_text v = False"

fun is_num :: "cell \<Rightarrow> bool" where
  "is_num (Num a) = True"
| "is_num v = False"

text \<open>\<^verbatim>\<open>df[col]\<close>: the cells of a column, top to bottom.\<close>

definition column :: "dataframe \<Rightarrow> string \<Rightarrow> error + cell list" where
  "column df col =
     (if col \<in> set (columns df) then Inr (map (\<lambda>(i, r). r col) (rows df))
      else Inl (KeyError col))"

fun nums :: "cell list \<Rightarrow> rat list" where
  "nums [] = []"
| "nums (Num a # vs) = a # nums vs"
| "nums (v # vs) = nums vs"

fun texts :: "cell list \<Rightarrow> string list" where
  "texts [] = []"
| "texts (Text s # vs) = s # texts vs"
| "texts (v # vs) = texts vs"

text \<open>
  \<^verbatim>\<open>Series.max()\<close> and \<^verbatim>\<open>Series.min()\<close>.  On a numeric column they skip the missing
  cells and give NaN when no number is left.  On a column of texts only they give the
  greatest and the least text, as Python orders strings.  When a text stands beside a
  number or beside a missing cell, the comparison of the two raises.
\<close>

definition series_max :: "cell list \<Rightarrow> error + cell" where
  "series_max vs =
     (if \<exists>v \<in> set vs. is_text v
      then (if \<forall>v \<in> set vs. is_text v then Inr (Text (Max (set (texts vs))))
            else Inl NotNumeric)
      else if nums vs = [] then Inr Missing
      else Inr (Num (Max (set (nums vs)))))"

definition series_min :: "cell list \<Rightarrow> error + cell" where
  "series_min vs =
     (if \<exists>v \<in> set vs. is_text v
      then (if \<forall>v \<in> set vs. is_text v then Inr (Text (Min (set (texts vs))))
            else Inl NotNumeric)
      else if nums vs = [] then Inr Missing
      else Inr (Num (Min (set (nums vs)))))"

text \<open>
  Python's \<^verbatim>\<open>int\<close> on a text: the white space around it is stripped, a sign may lead,
  and the rest has to be decimal digits, single underscores allowed between two digits.
  (Only the ASCII digits and the ASCII white space are modelled.)
\<close>

definition is_digit :: "char \<Rightarrow> bool" where
  "is_digit c = (CHR ''0'' \<le> c \<and> c \<le> CHR ''9'')"

definition is_space :: "char \<Rightarrow> bool" where
  "is_space c = (of_char c \<in> {9, 10, 11, 12, 13, 28, 29, 30, 31, 32 :: nat})"

definition strip :: "string \<Rightarrow> string" where
  "strip s = dropWhile is_space (rev (dropWhile is_space (rev s)))"

fun digits_value :: "bool \<Rightarrow> int \<Rightarrow> string \<Rightarrow> int option" where
  "digits_value after_digit n [] = (if after_digit then Some n else None)"
| "digits_value after_digit n (c # cs) =
     (if is_digit c then digits_value True (10 * n + (of_char c - 48)) cs
      else if c = CHR ''_'' \<and> after_digit then digits_value False n cs
      else None)"

definition int_of_text :: "string \<Rightarrow> int option" where
  "int_of_text s =
     (case strip s of
        [] \<Rightarrow> None
      | c # cs \<Rightarrow>
          if c = CHR ''-'' then map_option uminus (digits_value False 0 cs)
          else if c = CHR ''+'' then digits_value False 0 cs
          else digits_value False 0 (c # cs))"

text \<open>
  Python's \<^verbatim>\<open>int\<close>: a number is truncated towards zero, NaN raises ValueError, and so
  does a text that is no integer.
\<close>

fun py_int :: "cell \<Rightarrow> error + int" where
  "py_int (Num a) = Inr (if 0 \<le> a then \<lfloor>a\<rfloor> else \<lceil>a\<rceil>)"
| "py_int Missing = Inl ValueError"
| "py_int (Text s) = (case int_of_text s of None \<Rightarrow> Inl ValueError | Some n \<Rightarrow> Inr n)"

text \<open>
  The predicate of \<^verbatim>\<open>bank.query("age >= @idades[0] and age <= @idades[1]")\<close> on one
  cell: every comparison with NaN is false.
\<close>

fun age_in_range :: "cell \<Rightarrow> int \<times> int \<Rightarrow> bool" where
  "age_in_range (Num a) (lo, hi) = (of_int lo \<le> a \<and> a \<le> of_int hi)"
| "age_in_range v (lo, hi) = False"

text \<open>
  The query keeps the index labels of the rows it keeps.  It raises when the column does
  not exist and when a text is compared with the integer bounds.
\<close>

definition query_age :: "dataframe \<Rightarrow> int \<times> int \<Rightarrow> error + dataframe" where
  "query_age bank idades =
     (if ''age'' \<notin> set (columns bank) then Inl (UndefinedVariable ''age'')
      else if \<exists>(i, r) \<in> set (rows bank). is_text (r ''age'') then Inl NotNumeric
      else Inr (bank\<lparr>rows := filter (\<lambda>(i, r). age_in_range (r ''age'') idades) (rows bank)\<rparr>))"

section \<open>The filter pipeline of \<^verbatim>\<open>main\<close>\<close>

text \<open>What the sidebar form returns: the age range of the slider and the eight selections.\<close>

record widgets =
  idades :: "int \<times> int"
  jobs_selected :: "cell list"
  marital_selected :: "cell list"
  default_selected :: "cell list"
  housing_selected :: "cell list"
  loan_selected :: "cell list"
  contact_selected :: "cell list"
  month_selected :: "cell list"
  day_of_week_selected :: "cell list"

text \<open>The chain of \<^verbatim>\<open>.pipe(multiselect_filter, col, selected)\<close> calls, left to right.\<close>

fun pipe_filters :: "dataframe \<Rightarrow> (string \<times> cell list) list \<Rightarrow> error + dataframe" where
  "pipe_filters df [] = Inr df"
| "pipe_filters df ((col, sel) # fs) =
     (case multiselect_filter df col sel of
        Inl e \<Rightarrow> Inl e
      | Inr df' \<Rightarrow> pipe_filters df' fs)"

definition apply_filters :: "dataframe \<Rightarrow> widgets \<Rightarrow> error + dataframe" where
  "apply_filters bank w =
     (case query_age bank (idades w) of
        Inl e \<Rightarrow> Inl e
      | Inr b \<Rightarrow> pipe_filters b
          [(''job'', jobs_selected w), (''marital'', marital_selected w),
           (''default'', default_selected w), (''housing'', housing_selected w),
           (''loan'', loan_selected w), (''contact'', contact_selected w),
           (''month'', month_selected w), (''day_of_week'', day_of_week_selected w)])"

text \<open>
  The values the form starts with (lines 105 to 127): the slider spans
  \<^verbatim>\<open>int(bank["age"].min())\<close> to \<^verbatim>\<open>int(bank["age"].max())\<close> and every multiselect holds
  \<^verbatim>\<open>["all"]\<close>.  The maximum is computed first.
\<close>

definition default_widgets :: "dataframe \<Rightarrow> error + widgets" where
  "default_widgets bank =
     (case column bank ''age'' of
        Inl e \<Rightarrow> Inl e
      | Inr ages \<Rightarrow>
     (case series_max ages of
        Inl e \<Rightarrow> Inl e
      | Inr mx \<Rightarrow>
     (case py_int mx of
        Inl e \<Rightarrow> Inl e
      | Inr max_age \<Rightarrow>
     (case series_min ages of
        Inl e \<Rightarrow> Inl e
      | Inr mn \<Rightarrow>
     (case py_int mn of
        Inl e \<Rightarrow> Inl e
      | Inr min_age \<Rightarrow>
          Inr \<lparr>idades = (min_age, max_age),
               jobs_selected = [Text ''all''], marital_selected = [Text ''all''],
               default_selected = [Text ''all''], housing_selected = [Text ''all''],
               loan_selected = [Text ''all''], contact_selected = [Text ''all''],
               month_selected = [Text ''all''], day_of_week_selected = [Text ''all'']\<rparr>)))))"

text \<open>The filter pipeline run on the values the form starts with.\<close>

definition filter_with_defaults :: "dataframe \<Rightarrow> error + dataframe" where
  "filter_with_defaults bank =
     (case default_widgets bank of
        Inl e \<Rightarrow> Inl e
      | Inr w \<Rightarrow> apply_filters bank w)"

section \<open>The proportion summary\<close>

fun num_key :: "cell \<Rightarrow> rat" where
  "num_key (Num a) = a"
| "num_key v = 0"

fun text_key :: "cell \<Rightarrow> string" where
  "text_key (Text s) = s"
| "text_key v = []"

text \<open>
  The shares and the percentages are 64-bit floats.  A float operation returns the exact
  result rounded to the nearest number with a significand of 53 bits, a tie going to the
  even significand.  The range of the exponent is not limited in the model: the values
  below lie between \<open>1 / 2\<^sup>6\<^sup>3\<close> and 100, the counts being 64-bit integers.
\<close>

definition round_half_even :: "rat \<Rightarrow> int" where
  "round_half_even q =
     (let f = \<lfloor>q\<rfloor>; r = q - of_int f
      in if r < 1 / 2 then f else if 1 / 2 < r then f + 1 else if even f then f else f + 1)"

text \<open>The exponent \<open>e\<close> of a positive \<open>x\<close>: \<open>2\<^sup>e \<le> x < 2\<^sup>e\<^sup>+\<^sup>1\<close>.\<close>

definition exponent :: "rat \<Rightarrow> int" where
  "exponent x =
     (let e = bitlen (fst (quotient_of x)) - bitlen (snd (quotient_of x))
      in if 2 powi e \<le> x then e else e - 1)"

definition round_double :: "rat \<Rightarrow> rat" where
  "round_double x =
     (if x \<le> 0 then 0
      else of_int (round_half_even (x / 2 powi (exponent x - 52))) * 2 powi (exponent x - 52))"

text \<open>The relative error of one rounding is at most \<open>1 / 2\<^sup>5\<^sup>3\<close>.\<close>

definition ulp_half :: rat where
  "ulp_half = 1 / 2 ^ 53"

text \<open>A count becomes a float before it is divided.\<close>

definition float_of_count :: "nat \<Rightarrow> rat" where
  "float_of_count n = round_double (of_nat n)"

definition float_div :: "rat \<Rightarrow> rat \<Rightarrow> rat" where
  "float_div x y = round_double (x / y)"

definition float_mul :: "rat \<Rightarrow> rat \<Rightarrow> rat" where
  "float_mul x y = round_double (x * y)"

text \<open>
  \<^verbatim>\<open>Series.value_counts(normalize=True)\<close>: the missing cells are dropped; every
  distinct value left is paired with its count divided by the number of cells left, a
  division of floats.  pandas lists the pairs by falling count; \<^verbatim>\<open>sort_index\<close>
  reorders them at once, so the model lists them as \<open>remdups\<close> does.
\<close>

definition value_counts_normalize :: "cell list \<Rightarrow> (cell \<times> rat) list" where
  "value_counts_normalize vs =
     (let xs = filter (\<lambda>v. v \<noteq> Missing) vs
      in map (\<lambda>k. (k, float_div (float_of_count (count_list xs k)) (float_of_count (length xs))))
           (remdups xs))"

text \<open>
  \<^verbatim>\<open>Series.sort_index()\<close>: ascending by key, numbers by value and texts as Python
  orders strings.  A text cannot be ordered against a number: pandas raises.  (A missing
  key cannot come out of \<open>value_counts_normalize\<close>.)
\<close>

definition sort_index :: "(cell \<times> rat) list \<Rightarrow> error + (cell \<times> rat) list" where
  "sort_index kvs =
     (if \<forall>(k, p) \<in> set kvs. is_num k then Inr (sort_key (\<lambda>(k, p). num_key k) kvs)
      else if \<forall>(k, p) \<in> set kvs. is_text k then Inr (sort_key (\<lambda>(k, p). text_key k) kvs)
      else Inl MixedKeys)"

text \<open>
  \<^verbatim>\<open>(df["y"].value_counts(normalize=True).sort_index() * 100).to_frame(name="y")\<close>,
  lines 156 and 161: a one-column table, the keys as its index.
\<close>

definition target_perc :: "dataframe \<Rightarrow> error + (cell \<times> rat) list" where
  "target_perc df =
     (case column df ''y'' of
        Inl e \<Rightarrow> Inl e
      | Inr ys \<Rightarrow>
     (case sort_index (value_counts_normalize ys) of
        Inl e \<Rightarrow> Inl e
      | Inr ps \<Rightarrow> Inr (map (\<lambda>(k, p). (k, float_mul p 100)) ps)))"

section \<open>The report of \<^verbatim>\<open>main\<close>\<close>

definition required_cols :: "string list" where
  "required_cols = [''age'', ''job'', ''marital'', ''default'', ''housing'', ''loan'',
                    ''contact'', ''month'', ''day_of_week'', ''y'']"

text \<open>
  \<^verbatim>\<open>
  def plus_all(unique_list):
      xs = sorted([x for x in unique_list if pd.notna(x)])
      xs.append("all")
      return xs
  \<close>
  \<^verbatim>\<open>sorted\<close> raises when it has to order a text against a number.
\<close>

definition plus_all :: "cell list \<Rightarrow> error + cell list" where
  "plus_all unique_list =
     (let xs = filter (\<lambda>x. x \<noteq> Missing) unique_list
      in if \<forall>x \<in> set xs. is_num x then Inr (sort_key num_key xs @ [Text ''all''])
         else if \<forall>x \<in> set xs. is_text x then Inr (sort_key text_key xs @ [Text ''all''])
         else Inl MixedKeys)"

text \<open>The options of one multiselect: \<^verbatim>\<open>plus_all(bank[col].unique().tolist())\<close>.\<close>

definition options :: "dataframe \<Rightarrow> string \<Rightarrow> error + cell list" where
  "options bank col =
     (case column bank col of
        Inl e \<Rightarrow> Inl e
      | Inr vs \<Rightarrow> plus_all (remdups vs))"

text \<open>
  Building the sidebar form (lines 102 to 129) evaluates the bounds of the slider and
  then the options of the eight multiselects, in this order; any of them may raise.
\<close>

fun all_options :: "dataframe \<Rightarrow> string list \<Rightarrow> error + cell list list" where
  "all_options bank [] = Inr []"
| "all_options bank (col # cols) =
     (case options bank col of
        Inl e \<Rightarrow> Inl e
      | Inr os \<Rightarrow>
     (case all_options bank cols of
        Inl e \<Rightarrow> Inl e
      | Inr oss \<Rightarrow> Inr (os # oss)))"

definition sidebar_form :: "dataframe \<Rightarrow> error + widgets \<times> cell list list" where
  "sidebar_form bank =
     (case default_widgets bank of
        Inl e \<Rightarrow> Inl e
      | Inr d \<Rightarrow>
     (case all_options bank [''job'', ''marital'', ''default'', ''housing'', ''loan'',
                             ''contact'', ''month'', ''day_of_week''] of
        Inl e \<Rightarrow> Inl e
      | Inr oss \<Rightarrow> Inr (d, oss)))"

text \<open>\<^verbatim>\<open>DataFrame.empty\<close>: no row or no column.\<close>

definition df_empty :: "dataframe \<Rightarrow> bool" where
  "df_empty df = (rows df = [] \<or> columns df = [])"

text \<open>
  What \<^verbatim>\<open>main\<close> hands to the page: the filtered table, the two summaries and the
  notices \<^verbatim>\<open>st.warning\<close> (line 147) and \<^verbatim>\<open>st.info\<close> (line 159).
\<close>

datatype notice = WarnNoRows | InfoUsingOriginal

record report =
  bank :: dataframe
  bank_raw_target_perc :: "(cell \<times> rat) list"
  bank_target_perc :: "(cell \<times> rat) list"
  notices :: "notice list"

text \<open>
  \<^verbatim>\<open>main\<close> from the loaded table on (lines 85 to 161).  The argument \<open>w\<close> is what the
  user submitted in the form.
\<close>

definition main :: "dataframe \<Rightarrow> widgets \<Rightarrow> error + report" where
  "main bank_raw w =
     (let missing = filter (\<lambda>c. c \<notin> set (columns bank_raw)) required_cols
      in if missing \<noteq> [] then Inl (MissingColumns missing)
      else
     (case sidebar_form bank_raw of
        Inl e \<Rightarrow> Inl e
      | Inr form \<Rightarrow>
     (case apply_filters bank_raw w of
        Inl e \<Rightarrow> Inl e
      | Inr filtered \<Rightarrow>
     (case target_perc bank_raw of
        Inl e \<Rightarrow> Inl e
      | Inr raw_perc \<Rightarrow>
          if df_empty filtered
          then Inr \<lparr>bank = filtered, bank_raw_target_perc = raw_perc,
                    bank_target_perc = raw_perc,
                    notices = [WarnNoRows, InfoUsingOriginal]\<rparr>
          else
     (case target_perc filtered of
        Inl e \<Rightarrow> Inl e
      | Inr perc \<Rightarrow>
          Inr \<lparr>bank = filtered, bank_raw_target_perc = raw_perc,
               bank_target_perc = perc, notices = []\<rparr>)))))"

section \<open>Loading the upload\<close>

text \<open>
  \<^verbatim>\<open>
  def load_data(file_data):
      """Try CSV (sep=';') then Excel."""
      try:
          return pd.read_csv(file_data, sep=";")
      except Exception:
          file_data.seek(0)
          return pd.read_excel(file_data)
  \<close>
  The uploaded file is a stream: its bytes and the read position.  The trace records
  every parse that was started on it, with the position it started from, and every seek.
\<close>

datatype format = SemicolonCsv | Workbook

datatype event = Parse format nat | Seek nat

record upload =
  content :: string
  pos :: nat
  trace :: "event list"

text \<open>
  \<^verbatim>\<open>pd.read_csv\<close> and \<^verbatim>\<open>pd.read_excel\<close> belong to pandas and are parameters of the
  model.  A parser reads the bytes from a position on; it returns a table or raises an
  exception of type \<open>'x\<close> (the exceptions that \<^verbatim>\<open>except Exception\<close> catches), and it
  leaves the stream at the position where it stopped.
\<close>

type_synonym 'x parser = "string \<Rightarrow> nat \<Rightarrow> ('x + dataframe) \<times> nat"

definition run_parser :: "format \<Rightarrow> 'x parser \<Rightarrow> upload \<Rightarrow> ('x + dataframe) \<times> upload" where
  "run_parser fmt parse f =
     (case parse (content f) (pos f) of
        (r, n) \<Rightarrow> (r, f\<lparr>pos := n, trace := trace f @ [Parse fmt (pos f)]\<rparr>))"

definition seek :: "nat \<Rightarrow> upload \<Rightarrow> upload" where
  "seek n f = f\<lparr>pos := n, trace := trace f @ [Seek n]\<rparr>"

text \<open>The first parameter takes the separator that \<^verbatim>\<open>load_data\<close> passes, \<^verbatim>\<open>sep=";"\<close>.\<close>

definition load_data ::
  "(char \<Rightarrow> 'x parser) \<Rightarrow> 'x parser \<Rightarrow> upload \<Rightarrow> ('x + dataframe) \<times> upload" where
  "load_data read_csv read_excel file_data =
     (case run_parser SemicolonCsv (read_csv CHR '';'') file_data of
        (Inr df, f1) \<Rightarrow> (Inr df, f1)
      | (Inl e, f1) \<Rightarrow> run_parser Workbook read_excel (seek 0 f1))"

section \<open>The export serializers\<close>



section \<open>Example tables\<close>

definition mk_row :: "cell \<Rightarrow> cell \<Rightarrow> cell \<Rightarrow> row" where
  "mk_row a j t = (\<lambda>c. if c = ''age'' then a else if c = ''job'' then j
                        else if c = ''y'' then t else Text ''unknown'')"

text \<open>Three clients with integer ages; one of them has the job \<^verbatim>\<open>"all"\<close>.\<close>

definition bank3 :: dataframe where
  "bank3 = \<lparr>columns = required_cols,
            rows = [(0, mk_row (Num 30) (Text ''admin'') (Text ''yes'')),
                    (1, mk_row (Num 41) (Text ''all'') (Text ''no'')),
                    (2, mk_row (Num 52) (Text ''admin'') (Text ''no''))]\<rparr>"

text \<open>Five clients whose \<^verbatim>\<open>y\<close> is yes, no, no, yes, no.\<close>

definition bank5 :: dataframe where
  "bank5 = \<lparr>columns = required_cols,
            rows = [(0, mk_row (Num 30) (Text ''admin'') (Text ''yes'')),
                    (1, mk_row (Num 41) (Text ''technician'') (Text ''no'')),
                    (2, mk_row (Num 52) (Text ''admin'') (Text ''no'')),
                    (3, mk_row (Num 33) (Text ''Admin'') (Text ''yes'')),
                    (4, mk_row (Num 25) Missing (Text ''no''))]\<rparr>"

text \<open>The second of three clients has no age.\<close>

definition bank_age_missing :: dataframe where
  "bank_age_missing = \<lparr>columns = required_cols,
            rows = [(0, mk_row (Num 30) (Text ''admin'') (Text ''yes'')),
                    (1, mk_row Missing (Text ''technician'') (Text ''no'')),
                    (2, mk_row (Num 52) (Text ''admin'') (Text ''no''))]\<rparr>"


text \<open>Two clients, the \<^verbatim>\<open>y\<close> of one a text and of the other a number.\<close>

definition bank_y_mixed :: dataframe where
  "bank_y_mixed = \<lparr>columns = required_cols,
            rows = [(0, mk_row (Num 30) (Text ''admin'') (Text ''yes'')),
                    (1, mk_row (Num 41) (Text ''technician'') (Num 0))]\<rparr>"

text \<open>Three clients with three values of \<^verbatim>\<open>y\<close>.\<close>

definition bank_thirds :: dataframe where
  "bank_thirds = \<lparr>columns = required_cols,
            rows = [(0, mk_row (Num 30) (Text ''admin'') (Text ''a'')),
                    (1, mk_row (Num 41) (Text ''technician'') (Text ''b'')),
                    (2, mk_row (Num 52) (Text ''admin'') (Text ''c''))]\<rparr>"

text \<open>Two clients whose ages are not whole numbers.\<close>

definition bank_age_fraction :: dataframe where
  "bank_age_fraction = \<lparr>columns = required_cols,
            rows = [(0, mk_row (Num (61 / 2)) (Text ''admin'') (Text ''yes'')),
                    (1, mk_row (Num (105 / 2)) (Text ''technician'') (Text ''no''))]\<rparr>"

text \<open>Two clients, neither with a value of \<^verbatim>\<open>y\<close>.\<close>

definition bank_y_missing :: dataframe where
  "bank_y_missing = \<lparr>columns = required_cols,
            rows = [(0, mk_row (Num 30) (Text ''admin'') Missing),
                    (1, mk_row (Num 41) (Text ''technician'') Missing)]\<rparr>"

text \<open>What the form returns when the user empties the multiselect of the jobs.\<close>

definition no_job_selected :: widgets where
  "no_job_selected =
     \<lparr>idades = (25, 52),
      jobs_selected = [], marital_selected = [Text ''all''],
      default_selected = [Text ''all''], housing_selected = [Text ''all''],
      loan_selected = [Text ''all''], contact_selected = [Text ''all''],
      month_selected = [Text ''all''], day_of_week_selected = [Text ''all'']\<rparr>"

text \<open>
  Two stand-ins for the parsers of pandas: the first refuses the bytes of a zip archive
  (they start with \<^verbatim>\<open>PK\<close>) and empty input, the second accepts nothing else than a
  zip archive.
\<close>

datatype parse_error = ParserError | BadZipFile

definition example_read_csv :: "char \<Rightarrow> parse_error parser" where
  "example_read_csv sep bytes p =
     (if take 2 (drop p bytes) = ''PK'' \<or> drop p bytes = [] then (Inl ParserError, p + 2)
      else (Inr bank3, length bytes))"

definition example_read_excel :: "parse_error parser" where
  "example_read_excel bytes p =
     (if take 2 (drop p bytes) = ''PK'' then (Inr bank5, length bytes)
      else (Inl BadZipFile, p))"



text \<open>An age cell that holds an integer.\<close>

fun is_int_cell :: "cell \<Rightarrow> bool" where
  "is_int_cell (Num a) = (of_int \<lfloor>a\<rfloor> = a)"
| "is_int_cell v = False"

section \<open>Properties of the categorical filter\<close>

text \<open>
  Claim C9.  Whenever the text \<^verbatim>\<open>"all"\<close> is a member of the selection, whatever else the
  selection holds, the categorical filter returns the table it was given, unchanged; the
  restriction to the selected values runs only when \<^verbatim>\<open>"all"\<close> is absent from the
  selection, and then it does run.
\<close>

theorem multiselect_filter_all_member:
  "(Text ''all'' \<in> set s \<longrightarrow> multiselect_filter T c s = Inr T) \<and>
   (Text ''all'' \<notin> set s \<and> c \<in> set (columns T) \<longrightarrow>
      multiselect_filter T c s =
        Inr (reset_index (T\<lparr>rows := filter (\<lambda>(i, r). r c \<in> set s) (rows T)\<rparr>)))"
  by (simp add: multiselect_filter_def isin_def)

theorem multiselect_filter_all_member_witness:
  "Text ''all'' \<in> set [Text ''admin'', Text ''all''] \<and>
   multiselect_filter bank3 ''job'' [Text ''admin'', Text ''all''] = Inr bank3 \<and>
   Text ''all'' \<notin> set [Text ''admin''] \<and> ''job'' \<in> set (columns bank3) \<and>
   multiselect_filter bank3 ''job'' [Text ''admin''] =
     Inr \<lparr>columns = required_cols,
          rows = [(0, mk_row (Num 30) (Text ''admin'') (Text ''yes'')),
                  (1, mk_row (Num 52) (Text ''admin'') (Text ''no''))]\<rparr>"
  using multiselect_filter_all_member [of "[Text ''admin'', Text ''all'']" bank3 "''job''"]
        multiselect_filter_all_member [of "[Text ''admin'']" bank3 "''job''"]
  by (simp add: reset_index_def bank3_def required_cols_def mk_row_def)

text \<open>
  Claim C2.  Let \<open>c\<close> be a column of the table and let the selection hold no missing
  value (the form never offers one).  If \<^verbatim>\<open>"all"\<close> is selected, the filter returns the
  table unchanged.  Otherwise it returns exactly the rows whose cell in \<open>c\<close> equals a
  member of the selection, in their order, labelled from zero; no row with a missing cell
  in \<open>c\<close> is among them.  For the empty selection the result is a table without rows,
  and not an error.
\<close>

theorem multiselect_filter_selection:
  fixes T :: dataframe
  assumes col: "c \<in> set (columns T)" and sel: "Missing \<notin> set s"
  shows "(Text ''all'' \<in> set s \<longrightarrow> multiselect_filter T c s = Inr T) \<and>
         (Text ''all'' \<notin> set s \<longrightarrow>
            (let kept = filter (\<lambda>r. r c \<in> set s) (map snd (rows T))
             in multiselect_filter T c s =
                  Inr \<lparr>columns = columns T, rows = zip [0 ..< length kept] kept\<rparr> \<and>
                (\<forall>r \<in> set kept. r c \<noteq> Missing))) \<and>
         (s = [] \<longrightarrow> multiselect_filter T c s = Inr \<lparr>columns = columns T, rows = []\<rparr>)"
proof -
  have m: "map snd (filter (\<lambda>(i, r). r c \<in> set s) (rows T)) =
           filter (\<lambda>r. r c \<in> set s) (map snd (rows T))"
    by (simp add: filter_map comp_def case_prod_unfold)
  have "multiselect_filter T c s =
          Inr \<lparr>columns = columns T,
               rows = zip [0 ..< length (filter (\<lambda>r. r c \<in> set s) (map snd (rows T)))]
                          (filter (\<lambda>r. r c \<in> set s) (map snd (rows T)))\<rparr>"
    if "Text ''all'' \<notin> set s"
    using that col
    by (simp add: multiselect_filter_def reset_index_def isin_def flip: m)
  moreover have "\<forall>r \<in> set (filter (\<lambda>r. r c \<in> set s) (map snd (rows T))). r c \<noteq> Missing"
    using sel by auto
  moreover have "multiselect_filter T c s = Inr \<lparr>columns = columns T, rows = []\<rparr>" if "s = []"
    using that col by (simp add: multiselect_filter_def reset_index_def isin_def)
  ultimately show ?thesis
    by (simp add: Let_def multiselect_filter_def)
qed

text \<open>
  On \<open>bank5\<close> the job \<^verbatim>\<open>"admin"\<close> selects the first and the third client: the fourth
  is an \<^verbatim>\<open>"Admin"\<close> and the fifth has no job.
\<close>

theorem multiselect_filter_selection_witness:
  "''job'' \<in> set (columns bank5) \<and> Missing \<notin> set [Text ''admin''] \<and>
   multiselect_filter bank5 ''job'' [Text ''admin''] =
     Inr \<lparr>columns = required_cols,
          rows = [(0, mk_row (Num 30) (Text ''admin'') (Text ''yes'')),
                  (1, mk_row (Num 52) (Text ''admin'') (Text ''no''))]\<rparr> \<and>
   multiselect_filter bank5 ''job'' [] = Inr \<lparr>columns = required_cols, rows = []\<rparr>"
proof -
  have c: "''job'' \<in> set (columns bank5)"
    by (simp add: bank5_def required_cols_def)
  have s1: "Missing \<notin> set [Text ''admin'']" and s0: "Missing \<notin> set []"
    by simp_all
  show ?thesis
    using c multiselect_filter_selection [OF c s1] multiselect_filter_selection [OF c s0]
    by (simp add: bank5_def mk_row_def)
qed

section \<open>Properties of the numeric range filter\<close>




text \<open>Any text in the age column makes the comparison of the query raise.\<close>

lemma query_age_raises_on_text:
  assumes "''age'' \<in> set (columns T)" and "(i, r) \<in> set (rows T)" and "is_text (r ''age'')"
  shows "query_age T bounds = Inl NotNumeric"
  using assms by (auto simp: query_age_def)

section \<open>The pipeline on the values the form starts with\<close>

lemma py_int_integral: "of_int \<lfloor>a\<rfloor> = a \<Longrightarrow> py_int (Num a) = Inr \<lfloor>a\<rfloor>"
proof -
  assume "of_int \<lfloor>a\<rfloor> = a"
  then have "\<lceil>a\<rceil> = \<lfloor>a\<rfloor>"
    by (metis ceiling_of_int)
  then show ?thesis by simp
qed

lemma set_nums: "set (nums vs) = {a. Num a \<in> set vs}"
  by (induction vs rule: nums.induct) auto

text \<open>
  Claim C1, as the code has it.  The table that comes back from the filter pipeline, run
  with the slider on \<^verbatim>\<open>int(min(age))\<close> to \<^verbatim>\<open>int(max(age))\<close> and \<^verbatim>\<open>["all"]\<close> in every
  multiselect, is the table that went in, row for row and label for label, whenever the
  table has a row and every row has an integer age.
\<close>

theorem filter_with_defaults_identity:
  assumes age: "''age'' \<in> set (columns T)"
    and ne: "rows T \<noteq> []"
    and ints: "\<forall>(i, r) \<in> set (rows T). is_int_cell (r ''age'')"
  shows "filter_with_defaults T = Inr T"
proof -
  define ages where "ages = map (\<lambda>(i, r). r ''age'') (rows T)"
  have col: "column T ''age'' = Inr ages"
    using age by (simp add: column_def ages_def)
  have cells: "is_int_cell v" if "v \<in> set ages" for v
    using that ints by (auto simp: ages_def)
  have notext: "\<not> (\<exists>v \<in> set ages. is_text v)"
  proof
    assume "\<exists>v \<in> set ages. is_text v"
    then obtain v where "v \<in> set ages" "is_text v" by blast
    with cells [of v] show False by (cases v) auto
  qed
  have sub: "set (nums ages) = {a. Num a \<in> set ages}" by (rule set_nums)
  obtain v0 where v0: "v0 \<in> set ages"
    using ne by (cases "rows T") (auto simp: ages_def)
  with cells [of v0] obtain a0 where "v0 = Num a0" by (cases v0) auto
  with v0 have nonempty: "nums ages \<noteq> []"
    using sub by auto
  define M where "M = Max (set (nums ages))"
  define m where "m = Min (set (nums ages))"
  have M_in: "M \<in> set (nums ages)" and m_in: "m \<in> set (nums ages)"
    using nonempty by (simp_all add: M_def m_def)
  have M_int: "of_int \<lfloor>M\<rfloor> = M"
    using M_in cells [of "Num M"] sub by auto
  have m_int: "of_int \<lfloor>m\<rfloor> = m"
    using m_in cells [of "Num m"] sub by auto
  have smax: "series_max ages = Inr (Num M)" and smin: "series_min ages = Inr (Num m)"
    using notext nonempty by (simp_all add: series_max_def series_min_def M_def m_def)
  have dw: "default_widgets T =
      Inr \<lparr>idades = (\<lfloor>m\<rfloor>, \<lfloor>M\<rfloor>),
           jobs_selected = [Text ''all''], marital_selected = [Text ''all''],
           default_selected = [Text ''all''], housing_selected = [Text ''all''],
           loan_selected = [Text ''all''], contact_selected = [Text ''all''],
           month_selected = [Text ''all''], day_of_week_selected = [Text ''all'']\<rparr>"
    unfolding default_widgets_def
    by (simp only: col smax smin py_int_integral [OF M_int] py_int_integral [OF m_int] sum.case)
  have keep: "age_in_range (r ''age'') (\<lfloor>m\<rfloor>, \<lfloor>M\<rfloor>)" if "(i, r) \<in> set (rows T)" for i r
  proof -
    from that have mem: "r ''age'' \<in> set ages" by (force simp: ages_def)
    with cells obtain a where a: "r ''age'' = Num a" by (cases "r ''age''") force+
    with mem have "a \<in> set (nums ages)" using sub by simp
    then have "m \<le> a" "a \<le> M" by (simp_all add: M_def m_def)
    with a show ?thesis by (simp add: M_int m_int)
  qed
  have notext': "\<not> (\<exists>(i, r) \<in> set (rows T). is_text (r ''age''))"
    using notext by (force simp: ages_def)
  have "filter (\<lambda>(i, r). age_in_range (r ''age'') (\<lfloor>m\<rfloor>, \<lfloor>M\<rfloor>)) (rows T) = rows T"
    using keep by (auto simp: filter_id_conv)
  then have q: "query_age T (\<lfloor>m\<rfloor>, \<lfloor>M\<rfloor>) = Inr T"
    using age notext' by (simp add: query_age_def)
  show ?thesis
    by (simp add: filter_with_defaults_def dw apply_filters_def q multiselect_filter_def)
qed

theorem filter_with_defaults_identity_witness:
  "''age'' \<in> set (columns bank3) \<and> rows bank3 \<noteq> [] \<and>
   list_all (\<lambda>(i, r). is_int_cell (r ''age'')) (rows bank3) \<and>
   filter_with_defaults bank3 = Inr bank3"
proof -
  have a: "''age'' \<in> set (columns bank3)"
    by (simp add: bank3_def required_cols_def)
  have n: "rows bank3 \<noteq> []"
    by (simp add: bank3_def)
  have i: "\<forall>(i, r) \<in> set (rows bank3). is_int_cell (r ''age'')"
    by (simp add: bank3_def mk_row_def)
  from a n i filter_with_defaults_identity [OF a n i] show ?thesis
    by (simp add: list_all_iff)
qed

text \<open>
  Claim C1, as the specification has it, fails on \<open>bank_age_missing\<close>: the slider
  spans 30 to 52, the observed range, and the client without an age is dropped.
\<close>

theorem filter_with_defaults_drops_missing_age:
  "filter_with_defaults bank_age_missing =
     Inr \<lparr>columns = required_cols,
          rows = [(0, mk_row (Num 30) (Text ''admin'') (Text ''yes'')),
                  (2, mk_row (Num 52) (Text ''admin'') (Text ''no''))]\<rparr> \<and>
   filter_with_defaults bank_age_missing \<noteq> Inr bank_age_missing"
  by (simp add: filter_with_defaults_def default_widgets_def column_def series_max_def
      series_min_def apply_filters_def query_age_def multiselect_filter_def
      bank_age_missing_def required_cols_def mk_row_def)

text \<open>
  Outside these hypotheses: on a table without rows \<^verbatim>\<open>int\<close> is applied to NaN and
  raises, and on ages that are not whole numbers \<^verbatim>\<open>int\<close> cuts the upper bound of the
  slider below the largest age.
\<close>

lemma filter_with_defaults_no_rows:
  assumes "''age'' \<in> set (columns T)" and "rows T = []"
  shows "filter_with_defaults T = Inl ValueError"
  using assms
  by (simp add: filter_with_defaults_def default_widgets_def column_def series_max_def)

lemma filter_with_defaults_truncates:
  "filter_with_defaults bank_age_fraction =
     Inr \<lparr>columns = required_cols,
          rows = [(0, mk_row (Num (61 / 2)) (Text ''admin'') (Text ''yes''))]\<rparr>"
proof -
  have f: "\<lfloor>61 / 2 :: rat\<rfloor> = 30" "\<lfloor>105 / 2 :: rat\<rfloor> = 52"
    by (simp_all add: floor_eq_iff)
  show ?thesis
    by (simp add: filter_with_defaults_def default_widgets_def column_def series_max_def
        series_min_def apply_filters_def query_age_def multiselect_filter_def
        bank_age_fraction_def required_cols_def mk_row_def f)
qed

section \<open>Float arithmetic\<close>

lemma round_half_even_cases:
  "round_half_even q = \<lfloor>q\<rfloor> \<and> q - of_int \<lfloor>q\<rfloor> \<le> 1 / 2 \<or>
   round_half_even q = \<lfloor>q\<rfloor> + 1 \<and> 1 / 2 \<le> q - of_int \<lfloor>q\<rfloor>"
  by (auto simp: round_half_even_def Let_def)

lemma round_half_even_close: "\<bar>of_int (round_half_even q) - q\<bar> \<le> 1 / 2"
proof -
  have "of_int \<lfloor>q\<rfloor> \<le> q" "q < of_int \<lfloor>q\<rfloor> + 1"
    by linarith+
  with round_half_even_cases [of q] show ?thesis
    by (auto simp: abs_le_iff)
qed

lemma round_half_even_of_int: "round_half_even (of_int n) = n"
  by (simp add: round_half_even_def)

lemma round_half_even_mono:
  assumes "p \<le> q"
  shows "round_half_even p \<le> round_half_even q"
proof -
  have fl: "\<lfloor>p\<rfloor> \<le> \<lfloor>q\<rfloor>"
    using assms by (rule floor_mono)
  show ?thesis
  proof (cases "\<lfloor>p\<rfloor> = \<lfloor>q\<rfloor>")
    case True
    then have "p - of_int \<lfloor>p\<rfloor> \<le> q - of_int \<lfloor>q\<rfloor>"
      using assms by simp
    with True show ?thesis
      by (auto simp: round_half_even_def Let_def)
  next
    case False
    with fl have "\<lfloor>p\<rfloor> + 1 \<le> \<lfloor>q\<rfloor>" by simp
    with round_half_even_cases [of p] round_half_even_cases [of q] show ?thesis
      by auto
  qed
qed

lemma exponent_bounds:
  assumes "0 < x"
  shows "2 powi exponent x \<le> x" and "x < 2 powi (exponent x + 1)"
proof -
  obtain a b where q: "quotient_of x = (a, b)"
    by (cases "quotient_of x")
  then have b: "0 < b" and x: "x = of_int a / of_int b"
    by (simp_all add: quotient_of_denom_pos quotient_of_div)
  from assms x b have a: "0 < a"
    by (simp add: zero_less_divide_iff)
  define la where "la = bitlen a"
  define lb where "lb = bitlen b"
  have la: "2 ^ nat (la - 1) \<le> a" "a < 2 ^ nat la"
    using bitlen_bounds [OF a] by (simp_all add: la_def)
  have lb: "2 ^ nat (lb - 1) \<le> b" "b < 2 ^ nat lb"
    using bitlen_bounds [OF b] by (simp_all add: lb_def)
  have la1: "1 \<le> la" and lb1: "1 \<le> lb"
    using a b by (simp_all add: la_def lb_def bitlen_alt_def)
  have ra: "(2::rat) powi (la - 1) \<le> of_int a" "of_int a < (2::rat) powi la"
  proof -
    have "(of_int (2 ^ nat (la - 1)) :: rat) \<le> of_int a"
      using la(1) by (simp only: of_int_le_iff)
    then show "(2::rat) powi (la - 1) \<le> of_int a"
      using la1 by (simp add: power_int_nonneg_exp)
    have "(of_int a :: rat) < of_int (2 ^ nat la)"
      using la(2) by (simp only: of_int_less_iff)
    then show "of_int a < (2::rat) powi la"
      using la1 by (simp add: power_int_nonneg_exp)
  qed
  have rb: "(2::rat) powi (lb - 1) \<le> of_int b" "of_int b < (2::rat) powi lb"
  proof -
    have "(of_int (2 ^ nat (lb - 1)) :: rat) \<le> of_int b"
      using lb(1) by (simp only: of_int_le_iff)
    then show "(2::rat) powi (lb - 1) \<le> of_int b"
      using lb1 by (simp add: power_int_nonneg_exp)
    have "(of_int b :: rat) < of_int (2 ^ nat lb)"
      using lb(2) by (simp only: of_int_less_iff)
    then show "of_int b < (2::rat) powi lb"
      using lb1 by (simp add: power_int_nonneg_exp)
  qed
  have bpos: "(0::rat) < of_int b" using b by simp
  have upper: "x < 2 powi (la - lb + 1)"
  proof -
    have "x < 2 powi la / of_int b"
      unfolding x using ra(2) bpos by (simp add: divide_strict_right_mono)
    also have "\<dots> \<le> 2 powi la / 2 powi (lb - 1)"
      using rb(1) by (simp add: frac_le)
    also have "\<dots> = 2 powi (la - lb + 1)"
      by (simp add: power_int_diff [symmetric] algebra_simps)
    finally show ?thesis .
  qed
  have lower: "2 powi (la - lb - 1) \<le> x"
  proof -
    have "(2::rat) powi (la - lb - 1) = 2 powi (la - 1) / 2 powi lb"
      by (simp add: power_int_diff [symmetric] algebra_simps)
    also have "\<dots> \<le> 2 powi (la - 1) / of_int b"
      using rb(2) bpos by (simp add: frac_le)
    also have "\<dots> \<le> x"
      unfolding x using ra(1) bpos by (simp add: divide_right_mono)
    finally show ?thesis .
  qed
  have e: "exponent x = (if 2 powi (la - lb) \<le> x then la - lb else la - lb - 1)"
    by (simp add: exponent_def q la_def lb_def)
  show "2 powi exponent x \<le> x"
    using lower by (simp add: e)
  show "x < 2 powi (exponent x + 1)"
    using upper by (auto simp: e not_le)
qed


lemma round_double_error:
  assumes "0 < x"
  shows "\<bar>round_double x - x\<bar> \<le> x * ulp_half"
proof -
  define s :: rat where "s = 2 powi (exponent x - 52)"
  have s: "0 < s" by (simp add: s_def)
  have rd: "round_double x = of_int (round_half_even (x / s)) * s"
    using assms by (simp add: round_double_def s_def)
  have "round_double x - x = (of_int (round_half_even (x / s)) - x / s) * s"
    using s by (simp add: rd algebra_simps)
  then have "\<bar>round_double x - x\<bar> = \<bar>of_int (round_half_even (x / s)) - x / s\<bar> * s"
    using s by (simp add: abs_mult)
  also have "\<dots> \<le> 1 / 2 * s"
    using round_half_even_close [of "x / s"] s by (simp add: mult_right_mono)
  also have "\<dots> = 2 powi exponent x * ulp_half"
    by (simp add: s_def ulp_half_def power_int_diff)
  also have "\<dots> \<le> x * ulp_half"
    using exponent_bounds(1) [OF assms] by (simp add: ulp_half_def divide_right_mono)
  finally show ?thesis .
qed

lemma round_double_pos:
  assumes "0 < x"
  shows "0 < round_double x"
proof -
  have "x - x * ulp_half \<le> round_double x"
    using round_double_error [OF assms] by (simp add: abs_le_iff)
  moreover have "0 < x - x * ulp_half"
  proof -
    have "x * ulp_half < x * 1"
      using assms by (intro mult_strict_left_mono) (simp_all add: ulp_half_def)
    then show ?thesis by simp
  qed
  ultimately show ?thesis by linarith
qed

lemma exponent_mono:
  assumes "0 < x" and "x \<le> y"
  shows "exponent x \<le> exponent y"
proof -
  have "0 < y" using assms by simp
  have "(2::rat) powi exponent x \<le> x"
    by (rule exponent_bounds(1) [OF assms(1)])
  also note assms(2)
  also have "y < 2 powi (exponent y + 1)"
    by (rule exponent_bounds(2) [OF \<open>0 < y\<close>])
  finally have lt: "(2::rat) powi exponent x < 2 powi (exponent y + 1)" .
  show ?thesis
  proof (rule ccontr)
    assume "\<not> exponent x \<le> exponent y"
    then have "exponent y + 1 \<le> exponent x" by simp
    then have "(2::rat) powi (exponent y + 1) \<le> 2 powi exponent x"
      by (simp add: power_int_increasing)
    with lt show False by simp
  qed
qed

lemma round_double_mono:
  assumes "0 < x" and "x \<le> y"
  shows "round_double x \<le> round_double y"
proof -
  have y: "0 < y" using assms by simp
  define sx :: rat where "sx = 2 powi (exponent x - 52)"
  define sy :: rat where "sy = 2 powi (exponent y - 52)"
  have sx: "0 < sx" and sy: "0 < sy" by (simp_all add: sx_def sy_def)
  have rx: "round_double x = of_int (round_half_even (x / sx)) * sx"
    using assms(1) by (simp add: round_double_def sx_def)
  have ry: "round_double y = of_int (round_half_even (y / sy)) * sy"
    using y by (simp add: round_double_def sy_def)
  show ?thesis
  proof (cases "exponent x = exponent y")
    case True
    then have eq: "sx = sy" by (simp add: sx_def sy_def)
    have "x / sy \<le> y / sy"
      using assms(2) sy by (simp add: divide_right_mono)
    then have "round_half_even (x / sy) \<le> round_half_even (y / sy)"
      by (rule round_half_even_mono)
    then have "(of_int (round_half_even (x / sy)) :: rat) \<le> of_int (round_half_even (y / sy))"
      by simp
    then show ?thesis
      using sy by (simp add: rx ry eq mult_right_mono)
  next
    case False
    with exponent_mono [OF assms] have lt: "exponent x + 1 \<le> exponent y" by simp
    have "x / sx \<le> 2 ^ 53"
    proof -
      have "x / sx \<le> 2 powi (exponent x + 1) / sx"
        using exponent_bounds(2) [OF assms(1)] sx by (simp add: divide_right_mono)
      also have "\<dots> = 2 ^ 53"
        by (simp add: sx_def power_int_diff [symmetric])
      finally show ?thesis .
    qed
    then have "x / sx \<le> of_int (2 ^ 53)" by simp
    then have "round_half_even (x / sx) \<le> round_half_even (of_int (2 ^ 53))"
      by (rule round_half_even_mono)
    then have "round_half_even (x / sx) \<le> 2 ^ 53"
      by (simp only: round_half_even_of_int)
    then have "(of_int (round_half_even (x / sx)) :: rat) \<le> of_int (2 ^ 53)"
      by (simp only: of_int_le_iff)
    then have "round_double x \<le> 2 ^ 53 * sx"
      using sx by (simp add: rx mult_right_mono)
    also have "\<dots> = 2 powi (exponent x + 1)"
      by (simp add: sx_def power_int_diff power_int_add)
    also have "\<dots> \<le> 2 powi exponent y"
      using lt by (simp add: power_int_increasing)
    also have "\<dots> = 2 ^ 52 * sy"
      by (simp add: sy_def power_int_diff)
    also have "\<dots> \<le> round_double y"
    proof -
      have "of_int (2 ^ 52) \<le> y / sy"
      proof -
        have "2 powi exponent y / sy \<le> y / sy"
          using exponent_bounds(1) [OF y] sy by (simp add: divide_right_mono)
        moreover have "2 powi exponent y / sy = 2 ^ 52"
          by (simp add: sy_def power_int_diff)
        ultimately show ?thesis by simp
      qed
      then have "round_half_even (of_int (2 ^ 52)) \<le> round_half_even (y / sy)"
        by (rule round_half_even_mono)
      then have "2 ^ 52 \<le> round_half_even (y / sy)"
        by (simp only: round_half_even_of_int)
      then have "(of_int (2 ^ 52) :: rat) \<le> of_int (round_half_even (y / sy))"
        by (simp only: of_int_le_iff)
      then show ?thesis
        using sy by (simp add: ry mult_right_mono)
    qed
    finally show ?thesis .
  qed
qed

lemma round_double_1: "round_double 1 = 1"
  by code_simp

lemma round_double_100: "round_double 100 = 100"
  by code_simp


text \<open>
  The percentage of a value that occurs \<open>c\<close> times among \<open>n\<close> cells: four roundings
  away from \<open>c / n * 100\<close>, and never outside of 0 to 100.
\<close>

lemma percentage_bounds:
  assumes c: "0 < c" and cn: "c \<le> n"
  shows "0 < float_mul (float_div (float_of_count c) (float_of_count n)) 100"
    and "float_mul (float_div (float_of_count c) (float_of_count n)) 100 \<le> 100"
    and "of_nat c / of_nat n * 100 * ((1 - ulp_half) ^ 3 / (1 + ulp_half))
           \<le> float_mul (float_div (float_of_count c) (float_of_count n)) 100"
    and "float_mul (float_div (float_of_count c) (float_of_count n)) 100
           \<le> of_nat c / of_nat n * 100 * ((1 + ulp_half) ^ 3 / (1 - ulp_half))"
proof -
  define u where "u = ulp_half"
  have u: "0 < u" "u < 1" by (simp_all add: u_def ulp_half_def)
  define x :: rat where "x = of_nat c"
  define y :: rat where "y = of_nat n"
  have x: "0 < x" and y: "0 < y" and xy: "x \<le> y"
    using c cn by (simp_all add: x_def y_def)
  define a where "a = round_double x"
  define b where "b = round_double y"
  have err: "t * (1 - u) \<le> round_double t \<and> round_double t \<le> t * (1 + u)" if "0 < t" for t
    using round_double_error [OF that] by (simp add: abs_le_iff algebra_simps u_def)
  have a: "0 < a" "x * (1 - u) \<le> a" "a \<le> x * (1 + u)"
    using round_double_pos [OF x] err [OF x] by (simp_all add: a_def)
  have b: "0 < b" "y * (1 - u) \<le> b" "b \<le> y * (1 + u)"
    using round_double_pos [OF y] err [OF y] by (simp_all add: b_def)
  have ab: "a \<le> b"
    unfolding a_def b_def using x xy by (rule round_double_mono)
  define r where "r = a / b"
  have r: "0 < r" "r \<le> 1"
    using a(1) b(1) ab by (simp_all add: r_def)
  have r_lo: "x * (1 - u) / (y * (1 + u)) \<le> r"
    unfolding r_def using a b by (intro frac_le) simp_all
  have r_hi: "r \<le> x * (1 + u) / (y * (1 - u))"
    unfolding r_def using a b x y u by (intro frac_le) simp_all
  define d where "d = round_double r"
  have d: "0 < d" "r * (1 - u) \<le> d" "d \<le> r * (1 + u)"
    using round_double_pos [OF r(1)] err [OF r(1)] by (simp_all add: d_def)
  have d1: "d \<le> 1"
    using round_double_mono [OF r(1) r(2)] by (simp add: d_def round_double_1)
  define z where "z = d * 100"
  have z: "0 < z" "z \<le> 100"
    using d(1) d1 by (simp_all add: z_def)
  define p where "p = round_double z"
  have p: "0 < p" "z * (1 - u) \<le> p" "p \<le> z * (1 + u)"
    using round_double_pos [OF z(1)] err [OF z(1)] by (simp_all add: p_def)
  have p100: "p \<le> 100"
    using round_double_mono [OF z(1) z(2)] by (simp add: p_def round_double_100)
  have eq: "float_mul (float_div (float_of_count c) (float_of_count n)) 100 = p"
    by (simp add: float_mul_def float_div_def float_of_count_def p_def z_def d_def r_def
        a_def b_def x_def y_def)
  have lo: "x / y * 100 * ((1 - u) ^ 3 / (1 + u)) \<le> p"
  proof -
    have "x / y * 100 * ((1 - u) ^ 3 / (1 + u)) =
          x * (1 - u) / (y * (1 + u)) * (1 - u) * 100 * (1 - u)"
      using y u by (simp add: power3_eq_cube)
    also have "\<dots> \<le> r * (1 - u) * 100 * (1 - u)"
      using r_lo u by (intro mult_right_mono) simp_all
    also have "\<dots> \<le> d * 100 * (1 - u)"
      using d(2) u by (intro mult_right_mono) simp_all
    also have "\<dots> \<le> p"
      using p(2) by (simp add: z_def)
    finally show ?thesis .
  qed
  have hi: "p \<le> x / y * 100 * ((1 + u) ^ 3 / (1 - u))"
  proof -
    have "p \<le> d * 100 * (1 + u)"
      using p(3) by (simp add: z_def)
    also have "\<dots> \<le> r * (1 + u) * 100 * (1 + u)"
      using d(3) u by (intro mult_right_mono) simp_all
    also have "\<dots> \<le> x * (1 + u) / (y * (1 - u)) * (1 + u) * 100 * (1 + u)"
      using r_hi u by (intro mult_right_mono) simp_all
    also have "\<dots> = x / y * 100 * ((1 + u) ^ 3 / (1 - u))"
      using y u by (simp add: power3_eq_cube)
    finally show ?thesis .
  qed
  show "0 < float_mul (float_div (float_of_count c) (float_of_count n)) 100"
    using p(1) by (simp add: eq)
  show "float_mul (float_div (float_of_count c) (float_of_count n)) 100 \<le> 100"
    using p100 by (simp add: eq)
  show "of_nat c / of_nat n * 100 * ((1 - ulp_half) ^ 3 / (1 + ulp_half))
           \<le> float_mul (float_div (float_of_count c) (float_of_count n)) 100"
    using lo by (simp add: eq x_def y_def u_def)
  show "float_mul (float_div (float_of_count c) (float_of_count n)) 100
           \<le> of_nat c / of_nat n * 100 * ((1 + ulp_half) ^ 3 / (1 - ulp_half))"
    using hi by (simp add: eq x_def y_def u_def)
qed

lemma four_roundings_within_tolerance:
  "100 - 1 / 10 ^ 6 \<le> 100 * ((1 - ulp_half) ^ 3 / (1 + ulp_half))"
  "100 * ((1 + ulp_half) ^ 3 / (1 - ulp_half)) \<le> 100 + 1 / 10 ^ 6"
  by (simp_all add: ulp_half_def power_divide)

section \<open>Properties of the proportion summary\<close>

lemma sum_list_insort_key:
  "sum_list (map g (insort_key f x xs)) = (g x :: rat) + sum_list (map g xs)"
  by (induction xs) auto

lemma sum_list_sort_key:
  "sum_list (map g (sort_key f xs)) = (sum_list (map g xs) :: rat)"
  by (induction xs) (auto simp: sum_list_insort_key)

lemma distinct_map_insort_key:
  "distinct (map h (insort_key f x xs)) = (h x \<notin> h ` set xs \<and> distinct (map h xs))"
  by (induction xs) (auto simp: set_insort_key)

lemma distinct_map_sort_key:
  "distinct (map h (sort_key f xs)) = distinct (map h xs)"
  by (induction xs) (auto simp: distinct_map_insort_key)

lemma sum_list_count_remdups:
  "sum_list (map (count_list xs) (remdups xs)) = length xs"
proof -
  have "sum_list (map (count_list xs) (remdups xs)) = sum (count_list xs) (set (remdups xs))"
    by (rule sum_list_distinct_conv_sum_set) simp
  also have "\<dots> = length xs"
    by (simp add: sum_count_set)
  finally show ?thesis .
qed

lemma sum_list_scaled:
  "sum_list (map (\<lambda>k. of_nat (f k) / (m::rat) * t) ks) = of_nat (sum_list (map f ks)) / m * t"
  by (induction ks) (auto simp: add_divide_distrib distrib_right)

lemma value_counts_keys:
  "map fst (value_counts_normalize vs) = remdups (filter (\<lambda>v. v \<noteq> Missing) vs)"
  by (simp add: value_counts_normalize_def Let_def comp_def)

lemma count_list_present:
  "k \<noteq> Missing \<Longrightarrow>
   count_list (filter (\<lambda>v. v \<noteq> Missing) (map f xs)) k = length (filter (\<lambda>x. f x = k) xs)"
  by (induction xs) auto

lemma length_present:
  "length (filter (\<lambda>v. v \<noteq> Missing) (map f xs)) = length (filter (\<lambda>x. f x \<noteq> Missing) xs)"
  by (induction xs) auto

lemma sort_index_uniform:
  assumes "(\<forall>(k, p) \<in> set kvs. is_num k) \<or> (\<forall>(k, p) \<in> set kvs. is_text k)"
  shows "\<exists>ps. sort_index kvs = Inr ps \<and> set ps = set kvs \<and>
              distinct (map fst ps) = distinct (map fst kvs) \<and>
              (\<forall>g :: cell \<times> rat \<Rightarrow> rat. sum_list (map g ps) = sum_list (map g kvs))"
  using assms
  by (auto simp: sort_index_def sum_list_sort_key distinct_map_sort_key)

text \<open>
  Claim C4, as the code has it.  Let the table have at least one row with a value of
  \<^verbatim>\<open>y\<close>, and let these values be all numbers or all texts.  Then the summary exists; its
  keys are the distinct values of \<^verbatim>\<open>y\<close>, each once and none of them missing; the
  percentage of a key is the float that the program computes from the number of rows with
  that value and the number of rows that have a value; it is above 0 and at most 100; and
  the percentages, added exactly, are within \<open>1 / 10\<^sup>6\<close> of 100.
\<close>

theorem target_perc_within_tolerance:
  assumes col: "''y'' \<in> set (columns T)"
    and some: "\<exists>(i, r) \<in> set (rows T). r ''y'' \<noteq> Missing"
    and kind: "(\<forall>(i, r) \<in> set (rows T). \<not> is_text (r ''y'')) \<or>
               (\<forall>(i, r) \<in> set (rows T). \<not> is_num (r ''y''))"
  shows "\<exists>S. target_perc T = Inr S \<and> distinct (map fst S) \<and>
           set (map fst S) = {v. v \<noteq> Missing \<and> (\<exists>(i, r) \<in> set (rows T). r ''y'' = v)} \<and>
           (\<forall>(k, p) \<in> set S.
              p = float_mul
                    (float_div
                       (float_of_count (length (filter (\<lambda>(i, r). r ''y'' = k) (rows T))))
                       (float_of_count (length (filter (\<lambda>(i, r). r ''y'' \<noteq> Missing) (rows T)))))
                    100 \<and>
              0 < p \<and> p \<le> 100) \<and>
           \<bar>sum_list (map snd S) - 100\<bar> \<le> 1 / 10 ^ 6"
proof -
  define ys where "ys = map (\<lambda>(i, r). r ''y'') (rows T)"
  define xs where "xs = filter (\<lambda>v. v \<noteq> Missing) ys"
  define n where "n = length xs"
  define perc where
    "perc k = float_mul (float_div (float_of_count (count_list xs k)) (float_of_count n)) 100" for k
  define kvs where "kvs = value_counts_normalize ys"
  have c: "column T ''y'' = Inr ys"
    using col by (simp add: column_def ys_def)
  have ne: "xs \<noteq> []"
    using some by (force simp: xs_def ys_def filter_empty_conv)
  then have n: "0 < n" by (simp add: n_def)
  have kvs: "kvs = map (\<lambda>k. (k, float_div (float_of_count (count_list xs k)) (float_of_count n)))
                     (remdups xs)"
    by (simp add: kvs_def value_counts_normalize_def Let_def xs_def n_def)
  have key: "k \<in> set xs" if "(k, q) \<in> set kvs" for k q
    using that by (auto simp: kvs)
  have present: "k \<in> set ys \<and> k \<noteq> Missing" if "k \<in> set xs" for k
    using that by (simp add: xs_def)
  have "(\<forall>(k, p) \<in> set kvs. is_num k) \<or> (\<forall>(k, p) \<in> set kvs. is_text k)"
  proof -
    have "is_num k" if "(k, p) \<in> set kvs" "\<forall>(i, r) \<in> set (rows T). \<not> is_text (r ''y'')" for k p
    proof -
      from present [OF key [OF that(1)]] have k: "k \<in> set ys" "k \<noteq> Missing" by simp_all
      then obtain i r where "(i, r) \<in> set (rows T)" "r ''y'' = k" by (auto simp: ys_def)
      with that(2) have "\<not> is_text k" by blast
      with k(2) show ?thesis by (cases k) simp_all
    qed
    moreover
    have "is_text k" if "(k, p) \<in> set kvs" "\<forall>(i, r) \<in> set (rows T). \<not> is_num (r ''y'')" for k p
    proof -
      from present [OF key [OF that(1)]] have k: "k \<in> set ys" "k \<noteq> Missing" by simp_all
      then obtain i r where "(i, r) \<in> set (rows T)" "r ''y'' = k" by (auto simp: ys_def)
      with that(2) have "\<not> is_num k" by blast
      with k(2) show ?thesis by (cases k) simp_all
    qed
    ultimately show ?thesis using kind by blast
  qed
  from sort_index_uniform [OF this] obtain ps where
    ps: "sort_index kvs = Inr ps" "set ps = set kvs"
        "distinct (map fst ps) = distinct (map fst kvs)"
        "\<And>g :: cell \<times> rat \<Rightarrow> rat. sum_list (map g ps) = sum_list (map g kvs)"
    by blast
  define S where "S = map (\<lambda>(k, p). (k, float_mul p 100)) ps"
  have res: "target_perc T = Inr S"
    by (simp add: target_perc_def c ps(1) S_def flip: kvs_def)
  have keys: "map fst S = map fst ps"
    by (simp add: S_def comp_def case_prod_unfold)
  have dk: "distinct (map fst kvs)"
    by (simp add: kvs_def value_counts_keys)
  have d: "distinct (map fst S)"
    using dk ps(3) keys by simp
  have "set (map fst S) = set (map fst kvs)"
    using keys ps(2) by simp
  also have "\<dots> = set xs"
    by (simp add: kvs_def value_counts_keys xs_def)
  also have "\<dots> = {v. v \<noteq> Missing \<and> (\<exists>(i, r) \<in> set (rows T). r ''y'' = v)}"
    by (auto simp: xs_def ys_def)
  finally have s: "set (map fst S) =
      {v. v \<noteq> Missing \<and> (\<exists>(i, r) \<in> set (rows T). r ''y'' = v)}" .
  have counts: "0 < count_list xs k \<and> count_list xs k \<le> n" if "k \<in> set xs" for k
    using that by (simp add: n_def count_le_length count_list_0_iff zero_less_iff_neq_zero)
  have entry: "(k, p) \<in> set S \<Longrightarrow> k \<in> set xs \<and> p = perc k" for k p
    by (auto simp: S_def ps(2) kvs perc_def)
  have rows_count: "count_list xs k = length (filter (\<lambda>(i, r). r ''y'' = k) (rows T))"
    if "k \<in> set xs" for k
    using present [OF that] count_list_present [of k "\<lambda>(i, r). r ''y''" "rows T"]
    by (simp add: xs_def ys_def case_prod_unfold)
  have rows_n: "n = length (filter (\<lambda>(i, r). r ''y'' \<noteq> Missing) (rows T))"
    using length_present [of "\<lambda>(i, r). r ''y''" "rows T"]
    by (simp add: n_def xs_def ys_def case_prod_unfold)
  have b: "\<forall>(k, p) \<in> set S.
              p = float_mul
                    (float_div
                       (float_of_count (length (filter (\<lambda>(i, r). r ''y'' = k) (rows T))))
                       (float_of_count (length (filter (\<lambda>(i, r). r ''y'' \<noteq> Missing) (rows T)))))
                    100 \<and>
              0 < p \<and> p \<le> 100"
  proof (clarify)
    fix k p assume "(k, p) \<in> set S"
    from entry [OF this] have k: "k \<in> set xs" and p: "p = perc k" by simp_all
    from counts [OF k] have ck: "0 < count_list xs k" "count_list xs k \<le> n" by simp_all
    have "0 < perc k" "perc k \<le> 100"
      unfolding perc_def by (rule percentage_bounds [OF ck])+
    moreover have "perc k = float_mul
                    (float_div
                       (float_of_count (length (filter (\<lambda>(i, r). r ''y'' = k) (rows T))))
                       (float_of_count (length (filter (\<lambda>(i, r). r ''y'' \<noteq> Missing) (rows T)))))
                    100"
      unfolding perc_def rows_count [OF k] by (simp only: rows_n)
    ultimately
    show "p = float_mul
                    (float_div
                       (float_of_count (length (filter (\<lambda>(i, r). r ''y'' = k) (rows T))))
                       (float_of_count (length (filter (\<lambda>(i, r). r ''y'' \<noteq> Missing) (rows T)))))
                    100 \<and>
              0 < p \<and> p \<le> 100"
      by (simp add: p)
  qed
  have total: "sum_list (map snd S) = sum_list (map perc (remdups xs))"
  proof -
    have "sum_list (map snd S) = sum_list (map (\<lambda>(k, q). float_mul q 100) ps)"
      by (simp add: S_def comp_def case_prod_unfold)
    also have "\<dots> = sum_list (map (\<lambda>(k, q). float_mul q 100) kvs)"
      by (rule ps(4))
    also have "\<dots> = sum_list (map perc (remdups xs))"
      by (simp add: kvs comp_def perc_def [abs_def])
    finally show ?thesis .
  qed
  have exact: "sum_list (map (\<lambda>k. of_nat (count_list xs k) / of_nat n * t) (remdups xs)) = t"
    for t :: rat
  proof -
    have "sum_list (map (\<lambda>k. of_nat (count_list xs k) / of_nat n * t) (remdups xs)) =
          of_nat (sum_list (map (count_list xs) (remdups xs))) / of_nat n * t"
      by (rule sum_list_scaled)
    also have "\<dots> = of_nat n / of_nat n * t"
      by (simp only: sum_list_count_remdups n_def)
    also have "\<dots> = t"
      using n by simp
    finally show ?thesis .
  qed
  have lower: "100 * ((1 - ulp_half) ^ 3 / (1 + ulp_half)) \<le> sum_list (map perc (remdups xs))"
  proof -
    have "sum_list (map (\<lambda>k. of_nat (count_list xs k) / of_nat n
              * (100 * ((1 - ulp_half) ^ 3 / (1 + ulp_half)))) (remdups xs))
          \<le> sum_list (map perc (remdups xs))"
    proof (rule sum_list_mono)
      fix k assume "k \<in> set (remdups xs)"
      then have "0 < count_list xs k" "count_list xs k \<le> n"
        using counts [of k] by simp_all
      from percentage_bounds(3) [OF this]
      show "of_nat (count_list xs k) / of_nat n * (100 * ((1 - ulp_half) ^ 3 / (1 + ulp_half)))
            \<le> perc k"
        by (simp add: perc_def mult.assoc)
    qed
    then show ?thesis by (simp only: exact)
  qed
  have upper: "sum_list (map perc (remdups xs)) \<le> 100 * ((1 + ulp_half) ^ 3 / (1 - ulp_half))"
  proof -
    have "sum_list (map perc (remdups xs))
          \<le> sum_list (map (\<lambda>k. of_nat (count_list xs k) / of_nat n
              * (100 * ((1 + ulp_half) ^ 3 / (1 - ulp_half)))) (remdups xs))"
    proof (rule sum_list_mono)
      fix k assume "k \<in> set (remdups xs)"
      then have "0 < count_list xs k" "count_list xs k \<le> n"
        using counts [of k] by simp_all
      from percentage_bounds(4) [OF this]
      show "perc k
            \<le> of_nat (count_list xs k) / of_nat n * (100 * ((1 + ulp_half) ^ 3 / (1 - ulp_half)))"
        by (simp add: perc_def mult.assoc)
    qed
    then show ?thesis by (simp only: exact)
  qed
  have t: "\<bar>sum_list (map snd S) - 100\<bar> \<le> 1 / 10 ^ 6"
    using lower upper four_roundings_within_tolerance
    unfolding total abs_le_iff by linarith
  from res d s b t show ?thesis by blast
qed

lemma target_perc_bank5: "target_perc bank5 = Inr [(Text ''no'', 60), (Text ''yes'', 40)]"
  by code_simp

lemma target_perc_bank_thirds:
  "target_perc bank_thirds =
     Inr [(Text ''a'', 2345624805922133 / 70368744177664),
          (Text ''b'', 2345624805922133 / 70368744177664),
          (Text ''c'', 2345624805922133 / 70368744177664)]"
  by code_simp

text \<open>
  One third of the rows each: the three percentages are the float next to \<open>100 / 3\<close>,
  and their sum is \<open>1 / 2\<^sup>4\<^sup>6\<close> short of 100.
\<close>

theorem target_perc_within_tolerance_witness:
  "''y'' \<in> set (columns bank_thirds) \<and>
   (\<exists>(i, r) \<in> set (rows bank_thirds). r ''y'' \<noteq> Missing) \<and>
   list_all (\<lambda>(i, r). \<not> is_num (r ''y'')) (rows bank_thirds) \<and>
   target_perc bank_thirds =
     Inr [(Text ''a'', 2345624805922133 / 70368744177664),
          (Text ''b'', 2345624805922133 / 70368744177664),
          (Text ''c'', 2345624805922133 / 70368744177664)] \<and>
   sum_list (map snd (projr (target_perc bank_thirds))) = 100 - 1 / 2 ^ 46 \<and>
   \<bar>sum_list (map snd (projr (target_perc bank_thirds))) - 100\<bar> \<le> 1 / 10 ^ 6"
proof -
  have c: "''y'' \<in> set (columns bank_thirds)"
    by (simp add: bank_thirds_def required_cols_def)
  have s: "\<exists>(i, r) \<in> set (rows bank_thirds). r ''y'' \<noteq> Missing"
    by (simp add: bank_thirds_def mk_row_def)
  have t: "\<forall>(i, r) \<in> set (rows bank_thirds). \<not> is_num (r ''y'')"
    by (simp add: bank_thirds_def mk_row_def)
  from target_perc_within_tolerance [OF c s disjI2 [OF t]] obtain S where
    "target_perc bank_thirds = Inr S" "\<bar>sum_list (map snd S) - 100\<bar> \<le> 1 / 10 ^ 6"
    by blast
  with c s t target_perc_bank_thirds show ?thesis
    by (simp add: list_all_iff)
qed

text \<open>A text and a number among the values of \<^verbatim>\<open>y\<close>: \<^verbatim>\<open>sort_index\<close> raises.\<close>

lemma target_perc_mixed_raises: "target_perc bank_y_mixed = Inl MixedKeys"
  by code_simp

text \<open>
  Claim C4, as the specification has it, fails on \<open>bank_y_missing\<close>: the table has two
  rows, its summary has no entry, and nothing adds up to 0, which is not within
  \<open>1 / 10\<^sup>6\<close> of 100.
\<close>

theorem target_perc_not_100_when_y_missing:
  "rows bank_y_missing \<noteq> [] \<and> target_perc bank_y_missing = Inr [] \<and>
   \<not> \<bar>sum_list (map snd (projr (target_perc bank_y_missing))) - 100\<bar> \<le> 1 / 1000000"
  by (simp add: target_perc_def column_def bank_y_missing_def required_cols_def mk_row_def
      value_counts_normalize_def sort_index_def)

text \<open>
  Claim C10.  When every row of a table lacks a value of \<^verbatim>\<open>y\<close>, the summary is the
  empty one and its percentages add up to 0: the missing cells are dropped before
  anything is counted, so they are in no numerator and not in the denominator.
\<close>

theorem target_perc_all_missing:
  assumes "''y'' \<in> set (columns T)"
    and "\<forall>(i, r) \<in> set (rows T). r ''y'' = Missing"
  shows "target_perc T = Inr [] \<and> sum_list (map snd (projr (target_perc T))) = 0"
proof -
  have "filter (\<lambda>v. v \<noteq> Missing) (map (\<lambda>(i, r). r ''y'') (rows T)) = []"
    using assms(2) by (auto simp: filter_empty_conv)
  then have "value_counts_normalize (map (\<lambda>(i, r). r ''y'') (rows T)) = []"
    by (simp add: value_counts_normalize_def)
  then have "target_perc T = Inr []"
    using assms(1) by (simp add: target_perc_def column_def sort_index_def)
  then show ?thesis by simp
qed

theorem target_perc_all_missing_witness:
  "''y'' \<in> set (columns bank_y_missing) \<and> rows bank_y_missing \<noteq> [] \<and>
   list_all (\<lambda>(i, r). r ''y'' = Missing) (rows bank_y_missing) \<and>
   target_perc bank_y_missing = Inr []"
proof -
  have c: "''y'' \<in> set (columns bank_y_missing)"
    by (simp add: bank_y_missing_def required_cols_def)
  have n: "rows bank_y_missing \<noteq> []"
    by (simp add: bank_y_missing_def)
  have m: "\<forall>(i, r) \<in> set (rows bank_y_missing). r ''y'' = Missing"
    by (simp add: bank_y_missing_def mk_row_def)
  from c n m target_perc_all_missing [OF c m] show ?thesis
    by (simp add: list_all_iff)
qed

section \<open>The fallback of \<^verbatim>\<open>main\<close>\<close>

text \<open>
  Claim C5.  Let the raw table have the required columns, let the form build, let the
  filters leave an empty table and let the raw table have a summary.  Then \<^verbatim>\<open>main\<close>
  reports, on the filtered side, the summary of the raw table, and it tells the user so:
  the report carries the warning that no row matches and the notice that the original
  proportion is shown.
\<close>

theorem main_fallback:
  assumes cols: "set required_cols \<subseteq> set (columns bank_raw)"
    and form: "sidebar_form bank_raw = Inr f"
    and filt: "apply_filters bank_raw w = Inr filtered"
    and empty: "df_empty filtered"
    and perc: "target_perc bank_raw = Inr raw_perc"
  shows "main bank_raw w =
     Inr \<lparr>bank = filtered, bank_raw_target_perc = raw_perc, bank_target_perc = raw_perc,
          notices = [WarnNoRows, InfoUsingOriginal]\<rparr>"
proof -
  have "filter (\<lambda>c. c \<notin> set (columns bank_raw)) required_cols = []"
    using cols by (auto simp: filter_empty_conv)
  then show ?thesis
    by (simp add: main_def form filt empty perc)
qed

lemma sidebar_form_bank5:
  "sidebar_form bank5 =
     Inr (\<lparr>idades = (25, 52),
           jobs_selected = [Text ''all''], marital_selected = [Text ''all''],
           default_selected = [Text ''all''], housing_selected = [Text ''all''],
           loan_selected = [Text ''all''], contact_selected = [Text ''all''],
           month_selected = [Text ''all''], day_of_week_selected = [Text ''all'']\<rparr>,
          [[Text ''Admin'', Text ''admin'', Text ''technician'', Text ''all''],
           [Text ''unknown'', Text ''all''], [Text ''unknown'', Text ''all''],
           [Text ''unknown'', Text ''all''], [Text ''unknown'', Text ''all''],
           [Text ''unknown'', Text ''all''], [Text ''unknown'', Text ''all''],
           [Text ''unknown'', Text ''all'']])"
  by code_simp

lemma apply_filters_no_job:
  "apply_filters bank5 no_job_selected = Inr \<lparr>columns = required_cols, rows = []\<rparr>"
  by (simp add: apply_filters_def query_age_def multiselect_filter_def reset_index_def isin_def
      no_job_selected_def bank5_def required_cols_def mk_row_def)

text \<open>
  The scenario of the specification: \<^verbatim>\<open>y\<close> is yes, no, no, yes, no, and no row passes
  the filters.
\<close>

theorem main_fallback_witness:
  "set required_cols \<subseteq> set (columns bank5) \<and>
   df_empty \<lparr>columns = required_cols, rows = []\<rparr> \<and>
   main bank5 no_job_selected =
     Inr \<lparr>bank = \<lparr>columns = required_cols, rows = []\<rparr>,
          bank_raw_target_perc = [(Text ''no'', 60), (Text ''yes'', 40)],
          bank_target_perc = [(Text ''no'', 60), (Text ''yes'', 40)],
          notices = [WarnNoRows, InfoUsingOriginal]\<rparr>"
proof -
  have c: "set required_cols \<subseteq> set (columns bank5)"
    by (simp add: bank5_def)
  have e: "df_empty \<lparr>columns = required_cols, rows = []\<rparr>"
    by (simp add: df_empty_def)
  from c e main_fallback [OF c sidebar_form_bank5 apply_filters_no_job e target_perc_bank5]
  show ?thesis by blast
qed

section \<open>Properties of the loader\<close>

text \<open>
  Claim C6.  \<^verbatim>\<open>load_data\<close> first runs the delimited-text parser, with the semicolon as
  separator, from where the stream stands.  If that parser returns a table, the table is
  the result and nothing else is done to the stream.  If it raises, the stream is
  rewound to position 0 and the workbook parser runs from there; what that parser
  returns or raises is the result.  So when both parsers raise, the caller gets one
  error, the one of the workbook parser, after exactly two parses and one seek.
\<close>

theorem load_data_fallback:
  "(fst (read_csv CHR '';'' (content f) (pos f)) = Inr df \<longrightarrow>
      fst (load_data read_csv read_excel f) = Inr df \<and>
      trace (snd (load_data read_csv read_excel f)) = trace f @ [Parse SemicolonCsv (pos f)]) \<and>
   (fst (read_csv CHR '';'' (content f) (pos f)) = Inl e \<longrightarrow>
      fst (load_data read_csv read_excel f) = fst (read_excel (content f) 0) \<and>
      trace (snd (load_data read_csv read_excel f)) =
        trace f @ [Parse SemicolonCsv (pos f), Seek 0, Parse Workbook 0]) \<and>
   (fst (read_csv CHR '';'' (content f) (pos f)) = Inl e \<and>
    fst (read_excel (content f) 0) = Inl e' \<longrightarrow>
      fst (load_data read_csv read_excel f) = Inl e')"
proof -
  obtain r1 n1 where p1: "read_csv CHR '';'' (content f) (pos f) = (r1, n1)"
    by (cases "read_csv CHR '';'' (content f) (pos f)")
  obtain r2 n2 where p2: "read_excel (content f) 0 = (r2, n2)"
    by (cases "read_excel (content f) 0")
  show ?thesis
    by (cases r1) (simp_all add: load_data_def run_parser_def seek_def p1 p2)
qed

theorem load_data_fallback_witness:
  "fst (load_data example_read_csv example_read_excel
          \<lparr>content = ''age;job;y'', pos = 0, trace = []\<rparr>) = Inr bank3 \<and>
   trace (snd (load_data example_read_csv example_read_excel
          \<lparr>content = ''age;job;y'', pos = 0, trace = []\<rparr>)) = [Parse SemicolonCsv 0] \<and>
   fst (load_data example_read_csv example_read_excel
          \<lparr>content = ''PK34'', pos = 0, trace = []\<rparr>) = Inr bank5 \<and>
   fst (load_data example_read_csv example_read_excel
          \<lparr>content = [], pos = 0, trace = []\<rparr>) = Inl BadZipFile \<and>
   trace (snd (load_data example_read_csv example_read_excel
          \<lparr>content = [], pos = 0, trace = []\<rparr>)) =
     [Parse SemicolonCsv 0, Seek 0, Parse Workbook 0]"
  using
    load_data_fallback [of example_read_csv "\<lparr>content = ''age;job;y'', pos = 0, trace = []\<rparr>"
      bank3 example_read_excel]
    load_data_fallback [of example_read_csv "\<lparr>content = ''PK34'', pos = 0, trace = []\<rparr>"
      _ example_read_excel ParserError]
    load_data_fallback [of example_read_csv "\<lparr>content = [], pos = 0, trace = []\<rparr>"
      _ example_read_excel ParserError BadZipFile]
  by (simp add: example_read_csv_def example_read_excel_def)

section \<open>Properties of the export serializers\<close>




end
